theory Spec2Isabelle
  imports Main "HOL-Library.AList" "HOL-Library.Sublist" "HOL-Library.Word"
begin

section \<open>JavaScript values, strings and plain objects\<close>

text \<open>
  The client is JavaScript. A string is a sequence of code units; the model covers the
  strings whose code units are below 256, one \<^typ>\<open>char\<close> each (ASCII and the Latin-1
  supplement). A number is an integer from \<open>-2^53\<close> to \<open>2^53 - 1\<close>, the signed value of
  a 54-bit word: each of them is a Number, and prints in decimal. An object value is a plain
  data object, the list of its own enumerable properties in enumeration order, with
  \<open>Object.prototype\<close> as its prototype; an array has \<open>Array.prototype\<close>.
\<close>

datatype jsval =
    Undefined
  | Null
  | Bool bool
  | Num "54 word"
  | Str string
  | Arr "jsval list"
  | Obj "(string \<times> jsval) list"

type_synonym object = "(string \<times> jsval) list"

text \<open>
  Property read \<open>o[k]\<close> of a plain data object, for a name that the object owns or that
  \<open>Object.prototype\<close> does not have (the client reads \<open>engine\<close> and the keys that
  the loop over the object meets): the own property, and \<open>undefined\<close> without one.
\<close>

definition js_get :: "object \<Rightarrow> string \<Rightarrow> jsval" where
  "js_get obj k = (case map_of obj k of None \<Rightarrow> Undefined | Some v \<Rightarrow> v)"

text \<open>
  The object that the dispatcher fills starts as \<open>{}\<close>, with \<open>Object.prototype\<close> as its
  prototype, and a write of the name \<open>__proto__\<close> can change that prototype: the object is
  its prototype together with its own properties.
\<close>

datatype proto = ObjectPrototype | NullPrototype | ValuePrototype jsval

record plain_object =
  prototype :: proto
  own :: object

text \<open>
  Whether a write of \<open>__proto__\<close> finds the accessor of \<open>Object.prototype\<close> on the
  prototype chain. A data object that owns a property of that name hides the accessor;
  an array owns none.
\<close>

fun inherits_setter :: "proto \<Rightarrow> bool" where
  "inherits_setter ObjectPrototype = True"
| "inherits_setter NullPrototype = False"
| "inherits_setter (ValuePrototype (Obj ps)) = (''__proto__'' \<notin> set (map fst ps))"
| "inherits_setter (ValuePrototype v) = True"

text \<open>
  Property write \<open>o[k] = v\<close>. An existing own property keeps its place and takes the new
  value, a new one goes to the end. (An object enumerates its array-index names first; the
  loop of the dispatcher meets them first and writes them unchanged, so appending keeps
  the order there too.) The name \<open>__proto__\<close> is different while the object does not own
  it and inherits the accessor: the setter makes an object, an array or \<open>null\<close> the new
  prototype, ignores any other value, and adds no own property.
\<close>

definition js_put :: "string \<Rightarrow> jsval \<Rightarrow> plain_object \<Rightarrow> plain_object" where
  "js_put k v d =
     (if k = ''__proto__'' \<and> k \<notin> set (map fst (own d)) \<and> inherits_setter (prototype d)
      then (case v of
              Null \<Rightarrow> d\<lparr>prototype := NullPrototype\<rparr>
            | Arr xs \<Rightarrow> d\<lparr>prototype := ValuePrototype v\<rparr>
            | Obj ps \<Rightarrow> d\<lparr>prototype := ValuePrototype v\<rparr>
            | _ \<Rightarrow> d)
      else d\<lparr>own := AList.update k v (own d)\<rparr>)"

text \<open>\<open>delete o[k]\<close>.\<close>

definition js_delete :: "string \<Rightarrow> object \<Rightarrow> object" where
  "js_delete k obj = AList.delete k obj"

definition Object_keys :: "object \<Rightarrow> string list" where
  "Object_keys obj = map fst obj"

text \<open>Truthiness, as \<open>||\<close> tests it.\<close>

fun js_truthy :: "jsval \<Rightarrow> bool" where
  "js_truthy Undefined = False"
| "js_truthy Null = False"
| "js_truthy (Bool b) = b"
| "js_truthy (Num n) = (n \<noteq> 0)"
| "js_truthy (Str s) = (s \<noteq> [])"
| "js_truthy (Arr xs) = True"
| "js_truthy (Obj ps) = True"

definition js_or :: "jsval \<Rightarrow> jsval \<Rightarrow> jsval" where
  "js_or a b = (if js_truthy a then a else b)"

text \<open>\<open>Array.prototype.join\<close> on an array of strings.\<close>

fun js_join :: "string \<Rightarrow> string list \<Rightarrow> string" where
  "js_join sep [] = []"
| "js_join sep [w] = w"
| "js_join sep (w # v # ws) = w @ sep @ js_join sep (v # ws)"

text \<open>\<open>String.prototype.split\<close> with a one-character separator.\<close>

fun js_split :: "char \<Rightarrow> string \<Rightarrow> string list" where
  "js_split sep [] = [[]]"
| "js_split sep (c # cs) =
     (if c = sep then [] # js_split sep cs
      else (case js_split sep cs of
              [] \<Rightarrow> [[c]]
            | w # ws \<Rightarrow> (c # w) # ws))"

text \<open>Decimal digits of a natural number, and the string of a number.\<close>

fun digits :: "nat \<Rightarrow> string" where
  "digits n =
     (if n < 10 then [char_of (48 + n)]
      else digits (n div 10) @ [char_of (48 + n mod 10)])"

definition number_to_string :: "54 word \<Rightarrow> string" where
  "number_to_string w =
     (let n = sint w in if n < 0 then CHR ''-'' # digits (nat (- n)) else digits (nat n))"

text \<open>
  The string a template literal \<open>`${v}`\<close> puts in place of a value: a string as it is, an
  array as its elements joined by commas (\<open>null\<close> and \<open>undefined\<close> elements as the empty
  string), any other object as \<open>[object Object]\<close> (the objects of the model hold data
  only; none has a \<open>toString\<close> of its own).
\<close>

fun js_to_string :: "jsval \<Rightarrow> string" where
  "js_to_string Undefined = ''undefined''"
| "js_to_string Null = ''null''"
| "js_to_string (Bool b) = (if b then ''true'' else ''false'')"
| "js_to_string (Num n) = number_to_string n"
| "js_to_string (Str s) = s"
| "js_to_string (Arr xs) =
     js_join '',''
       (map (\<lambda>x. if x = Undefined \<or> x = Null then [] else js_to_string x) xs)"
| "js_to_string (Obj ps) = ''[object Object]''"

text \<open>\<open>String.prototype.includes\<close>: the argument occurs as a contiguous run.\<close>

definition js_includes :: "string \<Rightarrow> string \<Rightarrow> bool" where
  "js_includes s t = sublist t s"

text \<open>The character class \<open>[A-Z]\<close>: the code units 65 to 90.\<close>

definition is_AZ :: "char \<Rightarrow> bool" where
  "is_AZ c = (65 \<le> (of_char c :: nat) \<and> (of_char c :: nat) \<le> 90)"

text \<open>
  \<open>String.prototype.toLowerCase\<close>: below 256 the code units with a lowercase counterpart
  are A to Z and the Latin-1 capitals 192 to 222 without the multiplication sign 215; the
  counterpart is 32 higher.
\<close>

definition lower_char :: "char \<Rightarrow> char" where
  "lower_char c =
     (let n = (of_char c :: nat) in
      if (65 \<le> n \<and> n \<le> 90) \<or> (192 \<le> n \<and> n \<le> 222 \<and> n \<noteq> 215)
      then char_of (n + 32) else c)"

definition toLowerCase :: "string \<Rightarrow> string" where
  "toLowerCase s = map lower_char s"


section \<open>The URL builders (config module)\<close>

definition DEFAULT_ENGINE :: string where
  "DEFAULT_ENGINE = ''davinci''"

definition ORIGIN :: string where
  "ORIGIN = ''https://api.openai.com''"

definition API_VERSION :: string where
  "API_VERSION = ''v1''"

definition OPEN_AI_URL :: string where
  "OPEN_AI_URL = ORIGIN @ ''/'' @ API_VERSION"

text \<open>
  Each builder is a template literal; the argument \<open>engine\<close> is the string that the
  template puts in place of the value passed.
\<close>

definition completionURL :: "string \<Rightarrow> string" where
  "completionURL engine = OPEN_AI_URL @ ''/engines/'' @ engine @ ''/completions''"

definition searchURL :: "string \<Rightarrow> string" where
  "searchURL engine = OPEN_AI_URL @ ''/engines/'' @ engine @ ''/search''"

definition enginesUrl :: string where
  "enginesUrl = OPEN_AI_URL @ ''/engines''"

definition engineUrl :: "string \<Rightarrow> string" where
  "engineUrl engine = OPEN_AI_URL @ ''/engines/'' @ engine"

definition classificationsUrl :: string where
  "classificationsUrl = OPEN_AI_URL @ ''/classifications''"

definition filesUrl :: string where
  "filesUrl = OPEN_AI_URL @ ''/files''"

definition answersUrl :: string where
  "answersUrl = OPEN_AI_URL @ ''/answers''"

definition embeddingsUrl :: "string \<Rightarrow> string" where
  "embeddingsUrl engine = OPEN_AI_URL @ ''/engines/'' @ engine @ ''/embeddings''"


section \<open>The client (class OpenAI)\<close>

text \<open>
  The client object holds the API key. A request is the configuration handed to the HTTP
  transport (axios). The state of a call is the client object, the options object of the
  caller (the methods receive a reference to it), and the requests handed to the transport
  so far.
\<close>

record OpenAI =
  api_key :: string

record request =
  req_url :: string
  req_headers :: "(string \<times> string) list"
  req_data :: jsval
  req_method :: string

datatype promise = AxiosPromise request | Resolved jsval

datatype error = Error string

record state =
  self :: OpenAI
  bag :: object
  sent :: "request list"

type_synonym outcome = "(error + promise) \<times> state"

definition new_OpenAI :: "string \<Rightarrow> OpenAI" where
  "new_OpenAI key = \<lparr>api_key = key\<rparr>"

text \<open>The transport: the request is issued, and the promise of its response comes back.\<close>

definition axios :: "request \<Rightarrow> state \<Rightarrow> outcome" where
  "axios config st = (Inr (AxiosPromise config), st\<lparr>sent := sent st @ [config]\<rparr>)"

text \<open>
  \<open>key.replace(/([A-Z])/g, " $1")\<close>: every character of the class gets a space in front.
\<close>

fun replace_AZ :: "string \<Rightarrow> string" where
  "replace_AZ [] = []"
| "replace_AZ (c # cs) =
     (if is_AZ c then CHR '' '' # c # replace_AZ cs else c # replace_AZ cs)"

definition camelToUnderscore :: "string \<Rightarrow> string" where
  "camelToUnderscore key =
     (let result = replace_AZ key
      in toLowerCase (js_join ''_'' (js_split (CHR '' '') result)))"

text \<open>
  The loop \<open>for (const key in opts) data[camelToUnderscore(key)] = opts[key]\<close>, from
  the empty object; \<open>camel_data\<close> is the list of the own properties of \<open>data\<close> after it,
  which \<open>Object.keys\<close> and the request body see.
\<close>

definition camel_loop :: "object \<Rightarrow> plain_object" where
  "camel_loop opts =
     fold (\<lambda>key data. js_put (camelToUnderscore key) (js_get opts key) data)
       (Object_keys opts) \<lparr>prototype = ObjectPrototype, own = []\<rparr>"

definition camel_data :: "object \<Rightarrow> object" where
  "camel_data opts = own (camel_loop opts)"

text \<open>
  The dispatcher. Its third parameter has the default \<open>{}\<close>, taken when the caller passes
  none (\<open>None\<close>).
\<close>

definition send_request :: "string \<Rightarrow> string \<Rightarrow> object option \<Rightarrow> state \<Rightarrow> outcome" where
  "send_request url method opts_arg st =
     (let opts = (case opts_arg of None \<Rightarrow> [] | Some b \<Rightarrow> b);
          data = camel_data opts
      in axios
           \<lparr>req_url = url,
            req_headers =
              [(''Authorization'', ''Bearer '' @ api_key (self st)),
               (''Content-Type'', ''application/json'')],
            req_data = (if length (Object_keys data) \<noteq> 0 then Obj data else Str ''''),
            req_method = method\<rparr>
           st)"

definition availableEngineNames :: "jsval list" where
  "availableEngineNames =
     [Str ''text-similarity-ada-001'',
      Str ''text-similarity-babbage-001'',
      Str ''text-similarity-curie-001'',
      Str ''text-similarity-davinci-001'',
      Str ''text-search-ada-doc-001'',
      Str ''text-search-ada-query-001'',
      Str ''text-search-babbage-doc-001'',
      Str ''text-search-babbage-query-001'',
      Str ''text-search-curie-doc-001'',
      Str ''text-search-curie-query-001'',
      Str ''text-search-davinci-doc-001'',
      Str ''text-search-davinci-query-001'',
      Str ''code-search-ada-code-001'',
      Str ''code-search-ada-text-001'',
      Str ''code-search-babbage-code-001'',
      Str ''code-search-babbage-text-001'']"

definition check_embeddings_engine_name :: "jsval \<Rightarrow> error + unit" where
  "check_embeddings_engine_name engine =
     (if \<not> (engine \<in> set availableEngineNames)
      then Inl (Error (''Unknown engine name for embeddings. Available engine names are ''
                       @ js_to_string (Arr availableEngineNames)))
      else Inr ())"

definition complete :: "state \<Rightarrow> outcome" where
  "complete st =
     (let url = completionURL
                  (js_to_string (js_or (js_get (bag st) ''engine'') (Str DEFAULT_ENGINE)));
          st1 = st\<lparr>bag := js_delete ''engine'' (bag st)\<rparr>
      in send_request url ''post'' (Some (bag st1)) st1)"

definition encode :: "state \<Rightarrow> outcome" where
  "encode st = (Inr (Resolved (Arr (replicate 2047 (Str '''')))), st)"

definition search :: "state \<Rightarrow> outcome" where
  "search st =
     (let url = searchURL
                  (js_to_string (js_or (js_get (bag st) ''engine'') (Str DEFAULT_ENGINE)));
          st1 = st\<lparr>bag := js_delete ''engine'' (bag st)\<rparr>
      in send_request url ''post'' (Some (bag st1)) st1)"

definition answers :: "state \<Rightarrow> outcome" where
  "answers st = send_request answersUrl ''post'' (Some (bag st)) st"

definition classification :: "state \<Rightarrow> outcome" where
  "classification st = send_request classificationsUrl ''post'' (Some (bag st)) st"

definition engines :: "state \<Rightarrow> outcome" where
  "engines st = send_request enginesUrl ''get'' None st"

definition engine :: "jsval \<Rightarrow> state \<Rightarrow> outcome" where
  "engine e st = send_request (engineUrl (js_to_string e)) ''get'' None st"

definition embeddings :: "state \<Rightarrow> outcome" where
  "embeddings st =
     (case check_embeddings_engine_name (js_get (bag st) ''engine'') of
        Inl err \<Rightarrow> (Inl err, st)
      | Inr _ \<Rightarrow>
          send_request (embeddingsUrl (js_to_string (js_get (bag st) ''engine'')))
            ''post'' (Some (bag st)) st)"


section \<open>Notions used in the statements\<close>

text \<open>The message of a thrown error (\<open>err.message\<close>).\<close>

fun message :: "error \<Rightarrow> string" where
  "message (Error m) = m"

text \<open>The requests that a call handed to the transport: those added to the ones before.\<close>

definition new_requests :: "state \<Rightarrow> outcome \<Rightarrow> request list" where
  "new_requests st out = drop (length (sent st)) (sent (snd out))"

text \<open>
  The key rewriting in the specification's words: a separator in front of each uppercase
  letter A to Z, then the whole key in lowercase.
\<close>

definition separator_before_uppercase :: "string \<Rightarrow> string" where
  "separator_before_uppercase key =
     toLowerCase (concat (map (\<lambda>c. if is_AZ c then [CHR ''_'', c] else [c]) key))"

text \<open>What \<open>camelToUnderscore\<close> makes of one character, and the lowercase letters a to z.\<close>

definition rewrite_char :: "char \<Rightarrow> string" where
  "rewrite_char c =
     (if is_AZ c then [CHR ''_'', lower_char c]
      else if c = CHR '' '' then ''_'' else [lower_char c])"

definition is_az :: "char \<Rightarrow> bool" where
  "is_az c = (97 \<le> (of_char c :: nat) \<and> (of_char c :: nat) \<le> 122)"


section \<open>Facts about the string operations\<close>

lemma js_split_nonempty: "js_split sep s \<noteq> []"
  by (induction s) (auto split: list.splits)

lemma js_join_Cons_char: "js_join u ((c # w) # ws) = c # js_join u (w # ws)"
  by (cases ws) simp_all

lemma js_join_Nil_Cons: "ws \<noteq> [] \<Longrightarrow> js_join u ([] # ws) = u @ js_join u ws"
  by (cases ws) simp_all

lemma js_join_split:
  "js_join u (js_split sep s) = concat (map (\<lambda>c. if c = sep then u else [c]) s)"
proof (induction s)
  case Nil
  show ?case by simp
next
  case (Cons c cs)
  show ?case
  proof (cases "c = sep")
    case True
    then show ?thesis using Cons by (simp add: js_join_Nil_Cons js_split_nonempty)
  next
    case False
    obtain w ws where sp: "js_split sep cs = w # ws"
      using js_split_nonempty [of sep cs] by (cases "js_split sep cs") auto
    with False Cons show ?thesis by (simp add: js_join_Cons_char)
  qed
qed

lemma js_join_member: "x \<in> set xs \<Longrightarrow> sublist x (js_join sep xs)"
proof (induction sep xs rule: js_join.induct)
  case (1 sep)
  then show ?case by simp
next
  case (2 sep w)
  then show ?case by simp
next
  case (3 sep w v ws)
  show ?case
  proof (cases "x = w")
    case True
    then show ?thesis by (simp add: sublist_append)
  next
    case False
    with 3 have "sublist x (js_join sep (v # ws))" by simp
    then show ?thesis by (simp add: sublist_append)
  qed
qed

lemma lower_char_underscore: "lower_char (CHR ''_'') = CHR ''_''"
  by (simp add: lower_char_def)

lemma is_AZ_not_space: "is_AZ c \<Longrightarrow> c \<noteq> CHR '' ''"
  by (auto simp: is_AZ_def)

lemma is_AZ_lower: "is_AZ c \<Longrightarrow> lower_char c \<noteq> c"
proof
  assume az: "is_AZ c" and eq: "lower_char c = c"
  from az have "lower_char c = char_of (of_char c + 32 :: nat)"
    by (simp add: is_AZ_def lower_char_def)
  with eq have "of_char (char_of (of_char c + 32 :: nat)) = (of_char c :: nat)" by simp
  with az show False by (simp add: is_AZ_def)
qed

lemma camelToUnderscore_concat:
  "camelToUnderscore key = concat (map rewrite_char key)"
proof -
  have "map lower_char
          (concat (map (\<lambda>c. if c = CHR '' '' then ''_'' else [c]) (replace_AZ key)))
        = concat (map rewrite_char key)"
    by (induction key) (auto simp: rewrite_char_def lower_char_underscore is_AZ_not_space)
  then show ?thesis
    by (simp add: camelToUnderscore_def toLowerCase_def js_join_split)
qed

lemma camelToUnderscore_no_space:
  "CHR '' '' \<notin> set key \<Longrightarrow> camelToUnderscore key = separator_before_uppercase key"
  unfolding camelToUnderscore_concat separator_before_uppercase_def toLowerCase_def
  by (induction key) (auto simp: rewrite_char_def lower_char_underscore)

lemma camelToUnderscore_unchanged:
  assumes "CHR '' '' \<notin> set key" and "toLowerCase key = key"
  shows "camelToUnderscore key = key"
proof -
  have "\<forall>c \<in> set key. lower_char c = c"
    using assms(2) unfolding toLowerCase_def by (induction key) auto
  then have "\<forall>c \<in> set key. rewrite_char c = [c]"
    using assms(1) is_AZ_lower by (auto simp: rewrite_char_def)
  then have "concat (map rewrite_char key) = key"
    by (induction key) auto
  then show ?thesis by (simp add: camelToUnderscore_concat)
qed

section \<open>Facts about the key rewriting and the data object\<close>

lemma lower_char_az: "\<not> is_AZ c \<Longrightarrow> is_az (lower_char c) \<Longrightarrow> lower_char c = c"
  by (auto simp: is_AZ_def is_az_def lower_char_def Let_def split: if_splits)

lemma not_az_underscore: "\<not> is_az (CHR ''_'')"
  by (simp add: is_az_def)

lemma concat_rewrite_az:
  "concat (map rewrite_char k) = s \<Longrightarrow> list_all is_az s \<Longrightarrow> k = s"
proof (induction k arbitrary: s)
  case Nil
  then show ?case by simp
next
  case (Cons c cs)
  show ?case
  proof (cases "is_AZ c \<or> c = CHR '' ''")
    case True
    with Cons.prems have False
      by (auto simp: rewrite_char_def not_az_underscore is_AZ_def)
    then show ?thesis ..
  next
    case False
    then have rc: "rewrite_char c = [lower_char c]"
      by (simp add: rewrite_char_def)
    define t where "t = concat (map rewrite_char cs)"
    from Cons.prems(1) rc have s: "s = lower_char c # t"
      by (simp add: t_def)
    with Cons.prems(2) have az: "is_az (lower_char c)" "list_all is_az t"
      by simp_all
    have "cs = t"
      using Cons.IH [of t] az(2) by (simp add: t_def)
    moreover from False az(1) have "lower_char c = c" by (auto intro: lower_char_az)
    ultimately show ?thesis using s by simp
  qed
qed

lemma camelToUnderscore_engine: "camelToUnderscore k = ''engine'' \<longleftrightarrow> k = ''engine''"
proof
  assume "camelToUnderscore k = ''engine''"
  then have "concat (map rewrite_char k) = ''engine''"
    by (simp add: camelToUnderscore_concat)
  moreover have "list_all is_az ''engine''" by (simp add: is_az_def)
  ultimately show "k = ''engine''" by (rule concat_rewrite_az)
next
  assume "k = ''engine''"
  then show "camelToUnderscore k = ''engine''"
    by (simp add: camelToUnderscore_concat rewrite_char_def is_AZ_def lower_char_def)
qed

lemma update_fresh: "k \<notin> fst ` set al \<Longrightarrow> AList.update k v al = al @ [(k, v)]"
  by (induction al) auto

lemma fold_update_fresh:
  "distinct (map f ks) \<Longrightarrow> f ` set ks \<inter> fst ` set acc = {} \<Longrightarrow>
   fold (\<lambda>key al. AList.update (f key) (g key) al) ks acc = acc @ map (\<lambda>key. (f key, g key)) ks"
proof (induction ks arbitrary: acc)
  case Nil
  show ?case by simp
next
  case (Cons k ks)
  from Cons.prems have fresh: "f k \<notin> fst ` set acc" by auto
  have step: "AList.update (f k) (g k) acc = acc @ [(f k, g k)]"
    using fresh by (rule update_fresh)
  have "f ` set ks \<inter> fst ` set (acc @ [(f k, g k)]) = {}"
    using Cons.prems by auto
  moreover have "distinct (map f ks)" using Cons.prems by simp
  ultimately show ?case using Cons.IH [of "acc @ [(f k, g k)]"] step by simp
qed

lemma js_put_other:
  "k \<noteq> ''__proto__'' \<Longrightarrow> js_put k v d = d\<lparr>own := AList.update k v (own d)\<rparr>"
  by (simp add: js_put_def)

lemma js_put_proto_own:
  "own (js_put ''__proto__'' v d) = own d \<or>
   own (js_put ''__proto__'' v d) = AList.update ''__proto__'' v (own d)"
  by (cases v) (simp_all add: js_put_def)

lemma fold_put_plain:
  "''__proto__'' \<notin> f ` set ks \<Longrightarrow>
   fold (\<lambda>key d. js_put (f key) (g key) d) ks d =
     d\<lparr>own := fold (\<lambda>key al. AList.update (f key) (g key) al) ks (own d)\<rparr>"
proof (induction ks arbitrary: d)
  case Nil
  show ?case by simp
next
  case (Cons k ks)
  then have "f k \<noteq> ''__proto__''" and "''__proto__'' \<notin> f ` set ks" by auto
  then show ?case using Cons.IH [of "js_put (f k) (g k) d"] by (simp add: js_put_other)
qed

lemma map_of_own_js_put:
  "k' \<noteq> ''__proto__'' \<Longrightarrow>
   map_of (own (js_put k v d)) k' = (if k = k' then Some v else map_of (own d) k')"
proof (cases "k = ''__proto__''")
  case True
  assume "k' \<noteq> ''__proto__''"
  with True js_put_proto_own [of v d] show ?thesis by (auto simp: update_conv')
next
  case False
  then show ?thesis by (simp add: js_put_other update_conv')
qed

lemma map_of_fold_put:
  "k' \<noteq> ''__proto__'' \<Longrightarrow>
   map_of (own (fold (\<lambda>key d. js_put (f key) (g key) d) ks d)) k' =
     (case find (\<lambda>key. f key = k') (rev ks) of
        None \<Rightarrow> map_of (own d) k'
      | Some key \<Rightarrow> Some (g key))"
  by (induction ks rule: rev_induct) (auto simp: map_of_own_js_put)

lemma keys_js_put:
  "fst ` set (own (js_put k v d)) - {''__proto__''} =
   insert k (fst ` set (own d)) - {''__proto__''}"
proof (cases "k = ''__proto__''")
  case True
  define S where "S = fst ` set (own (js_put k v d))"
  define T where "T = fst ` set (own d)"
  from js_put_proto_own [of v d]
  have "S = T \<or> S = {''__proto__''} \<union> T"
  proof
    assume "own (js_put ''__proto__'' v d) = own d"
    then have "S = T" unfolding S_def T_def True by (simp only:)
    then show ?thesis ..
  next
    assume "own (js_put ''__proto__'' v d) = AList.update ''__proto__'' v (own d)"
    then have "S = {''__proto__''} \<union> T"
      unfolding S_def T_def True by (simp only: dom_update)
    then show ?thesis ..
  qed
  then have "S - {''__proto__''} = insert k T - {''__proto__''}"
    using True by blast
  then show ?thesis unfolding S_def T_def .
next
  case False
  then show ?thesis by (simp add: js_put_other dom_update)
qed

lemma keys_fold_put:
  "fst ` set (own (fold (\<lambda>key d. js_put (f key) (g key) d) ks d)) - {''__proto__''} =
   (f ` set ks \<union> fst ` set (own d)) - {''__proto__''}"
proof (induction ks arbitrary: d)
  case Nil
  show ?case by simp
next
  case (Cons k ks)
  have "fst ` set (own (fold (\<lambda>key d. js_put (f key) (g key) d) (k # ks) d)) - {''__proto__''}
        = (f ` set ks \<union> (fst ` set (own (js_put (f k) (g k) d)) - {''__proto__''}))
          - {''__proto__''}"
    using Cons.IH [of "js_put (f k) (g k) d"] by auto
  also have "\<dots> = (f ` set (k # ks) \<union> fst ` set (own d)) - {''__proto__''}"
    unfolding keys_js_put by auto
  finally show ?case .
qed

lemma js_get_distinct: "distinct (map fst opts) \<Longrightarrow> (k, v) \<in> set opts \<Longrightarrow> js_get opts k = v"
  by (simp add: js_get_def)

lemma camel_data_plain:
  "''__proto__'' \<notin> camelToUnderscore ` set (Object_keys opts) \<Longrightarrow>
   camel_data opts =
     fold (\<lambda>key al. AList.update (camelToUnderscore key) (js_get opts key) al)
       (Object_keys opts) []"
  by (simp add: camel_data_def camel_loop_def fold_put_plain)

lemma camel_data_distinct:
  assumes "distinct (map camelToUnderscore (Object_keys opts))"
    and "''__proto__'' \<notin> camelToUnderscore ` set (Object_keys opts)"
  shows "camel_data opts = map (\<lambda>(k, v). (camelToUnderscore k, v)) opts"
proof -
  have d: "distinct (map fst opts)"
    using assms(1) unfolding Object_keys_def by (metis distinct_map)
  have "camel_data opts = map (\<lambda>key. (camelToUnderscore key, js_get opts key)) (map fst opts)"
    using assms(1) fold_update_fresh [of camelToUnderscore "map fst opts" "[]" "js_get opts"]
    by (simp add: camel_data_plain [OF assms(2)] Object_keys_def)
  also have "\<dots> = map (\<lambda>(k, v). (camelToUnderscore k, v)) opts"
    using d by (auto simp: js_get_distinct)
  finally show ?thesis .
qed

lemma camel_data_Nil: "camel_data [] = []"
  by (simp add: camel_data_def camel_loop_def Object_keys_def)

lemma camel_data_empty_iff:
  assumes "''__proto__'' \<notin> camelToUnderscore ` set (Object_keys opts)"
  shows "camel_data opts = [] \<longleftrightarrow> opts = []"
proof
  assume e: "camel_data opts = []"
  show "opts = []"
  proof (cases opts)
    case Nil then show ?thesis .
  next
    case (Cons p ps)
    with assms have ne: "camelToUnderscore (fst p) \<noteq> ''__proto__''"
      by (auto simp: Object_keys_def)
    have "map_of (camel_data opts) (camelToUnderscore (fst p)) \<noteq> None"
      unfolding camel_data_def camel_loop_def map_of_fold_put [OF ne] Object_keys_def
      using Cons by (auto split: option.splits simp: find_None_iff)
    with e show ?thesis by simp
  qed
next
  assume "opts = []" then show "camel_data opts = []" by (simp add: camel_data_Nil)
qed

lemma camel_data_engine:
  assumes "''engine'' \<in> set (Object_keys opts)"
  shows "js_get (camel_data opts) ''engine'' = js_get opts ''engine''"
proof -
  let ?P = "\<lambda>key. camelToUnderscore key = ''engine''"
  have "find ?P (rev (Object_keys opts)) = Some ''engine''"
  proof (cases "find ?P (rev (Object_keys opts))")
    case None
    with assms show ?thesis by (auto simp: find_None_iff camelToUnderscore_engine)
  next
    case (Some key)
    then have "?P key" by (auto simp: find_Some_iff)
    with Some show ?thesis by (simp add: camelToUnderscore_engine)
  qed
  moreover have "''engine'' \<noteq> ''__proto__''" by simp
  ultimately have "map_of (camel_data opts) ''engine'' = Some (js_get opts ''engine'')"
    by (simp add: camel_data_def camel_loop_def map_of_fold_put)
  then show ?thesis by (simp add: js_get_def)
qed

lemma camel_data_keys:
  "set (Object_keys (camel_data opts)) - {''__proto__''} =
   camelToUnderscore ` set (Object_keys opts) - {''__proto__''}"
  using keys_fold_put [of camelToUnderscore "js_get opts" "Object_keys opts"
      "\<lparr>prototype = ObjectPrototype, own = []\<rparr>"]
  by (simp add: camel_data_def camel_loop_def Object_keys_def)


section \<open>Facts about the dispatcher\<close>

lemma send_request_eq:
  "send_request url method opts_arg st =
     (Inr (AxiosPromise
        \<lparr>req_url = url,
         req_headers = [(''Authorization'', ''Bearer '' @ api_key (self st)),
                        (''Content-Type'', ''application/json'')],
         req_data = (let data = camel_data (case opts_arg of None \<Rightarrow> [] | Some b \<Rightarrow> b)
                     in if data = [] then Str '''' else Obj data),
         req_method = method\<rparr>),
      st\<lparr>sent := sent st @
        [\<lparr>req_url = url,
          req_headers = [(''Authorization'', ''Bearer '' @ api_key (self st)),
                         (''Content-Type'', ''application/json'')],
          req_data = (let data = camel_data (case opts_arg of None \<Rightarrow> [] | Some b \<Rightarrow> b)
                      in if data = [] then Str '''' else Obj data),
          req_method = method\<rparr>]\<rparr>)"
  by (simp add: send_request_def axios_def Let_def Object_keys_def)

lemma new_requests_send:
  "new_requests st0 (send_request url method opts_arg st) =
     drop (length (sent st0)) (sent st @
        [\<lparr>req_url = url,
          req_headers = [(''Authorization'', ''Bearer '' @ api_key (self st)),
                         (''Content-Type'', ''application/json'')],
          req_data = (let data = camel_data (case opts_arg of None \<Rightarrow> [] | Some b \<Rightarrow> b)
                      in if data = [] then Str '''' else Obj data),
          req_method = method\<rparr>])"
  by (simp add: new_requests_def send_request_eq)


section \<open>Facts about the client methods\<close>

lemma available_names:
  "availableEngineNames = map Str
     [''text-similarity-ada-001'', ''text-similarity-babbage-001'',
      ''text-similarity-curie-001'', ''text-similarity-davinci-001'',
      ''text-search-ada-doc-001'', ''text-search-ada-query-001'',
      ''text-search-babbage-doc-001'', ''text-search-babbage-query-001'',
      ''text-search-curie-doc-001'', ''text-search-curie-query-001'',
      ''text-search-davinci-doc-001'', ''text-search-davinci-query-001'',
      ''code-search-ada-code-001'', ''code-search-ada-text-001'',
      ''code-search-babbage-code-001'', ''code-search-babbage-text-001'']"
  by (simp add: availableEngineNames_def)

lemma to_string_strings: "js_to_string (Arr (map Str ws)) = js_join '','' ws"
proof -
  have "map (\<lambda>x. if x = Undefined \<or> x = Null then [] else js_to_string x) (map Str ws) = ws"
    by (induction ws) auto
  then show ?thesis by simp
qed

lemma check_accepts:
  "v \<in> set availableEngineNames \<Longrightarrow> check_embeddings_engine_name v = Inr ()"
  by (simp add: check_embeddings_engine_name_def)

lemma check_rejects:
  "v \<notin> set availableEngineNames \<Longrightarrow>
   check_embeddings_engine_name v =
     Inl (Error (''Unknown engine name for embeddings. Available engine names are ''
                 @ js_to_string (Arr availableEngineNames)))"
  by (simp add: check_embeddings_engine_name_def)

lemma embeddings_valid:
  "js_get (bag st) ''engine'' \<in> set availableEngineNames \<Longrightarrow>
   embeddings st =
     send_request (embeddingsUrl (js_to_string (js_get (bag st) ''engine''))) ''post''
       (Some (bag st)) st"
  by (simp add: embeddings_def check_accepts)

lemma embeddings_invalid:
  "js_get (bag st) ''engine'' \<notin> set availableEngineNames \<Longrightarrow>
   embeddings st =
     (Inl (Error (''Unknown engine name for embeddings. Available engine names are ''
                  @ js_to_string (Arr availableEngineNames))), st)"
  by (simp add: embeddings_def check_rejects)


lemma self_send_request: "self (snd (send_request url method opts_arg st)) = self st"
  by (simp add: send_request_eq)

lemma bag_send_request: "bag (snd (send_request url method opts_arg st)) = bag st"
  by (simp add: send_request_eq)


lemma js_get_absent: "k \<notin> set (Object_keys b) \<Longrightarrow> js_get b k = Undefined"
proof -
  assume "k \<notin> set (Object_keys b)"
  then have "map_of b k = None" by (simp add: map_of_eq_None_iff Object_keys_def)
  then show ?thesis by (simp add: js_get_def)
qed

lemma js_get_present: "js_get b k = Str e \<Longrightarrow> k \<in> set (Object_keys b)"
  using js_get_absent [of k b] by auto

lemma Str_member: "Str n \<in> set (map Str ws) \<Longrightarrow> n \<in> set ws"
  by auto

lemma methods_self:
  "self (snd (complete st)) = self st" "self (snd (search st)) = self st"
  "self (snd (answers st)) = self st" "self (snd (classification st)) = self st"
  "self (snd (engines st)) = self st" "self (snd (engine e st)) = self st"
  "self (snd (embeddings st)) = self st" "self (snd (encode st)) = self st"
  by (simp_all add: complete_def search_def answers_def classification_def engines_def
      engine_def embeddings_def encode_def Let_def self_send_request split: sum.splits)

lemma embeddings_headers:
  "\<forall>r \<in> set (new_requests st (embeddings st)).
     req_headers r = [(''Authorization'', ''Bearer '' @ api_key (self st)),
                      (''Content-Type'', ''application/json'')]"
  by (cases "js_get (bag st) ''engine'' \<in> set availableEngineNames")
    (simp_all add: embeddings_valid embeddings_invalid new_requests_send, simp add: new_requests_def)

lemma methods_headers:
  "map req_headers (new_requests st (complete st)) =
     [[(''Authorization'', ''Bearer '' @ api_key (self st)),
       (''Content-Type'', ''application/json'')]]"
  "map req_headers (new_requests st (search st)) =
     [[(''Authorization'', ''Bearer '' @ api_key (self st)),
       (''Content-Type'', ''application/json'')]]"
  "map req_headers (new_requests st (answers st)) =
     [[(''Authorization'', ''Bearer '' @ api_key (self st)),
       (''Content-Type'', ''application/json'')]]"
  "map req_headers (new_requests st (classification st)) =
     [[(''Authorization'', ''Bearer '' @ api_key (self st)),
       (''Content-Type'', ''application/json'')]]"
  "map req_headers (new_requests st (engines st)) =
     [[(''Authorization'', ''Bearer '' @ api_key (self st)),
       (''Content-Type'', ''application/json'')]]"
  "map req_headers (new_requests st (engine e st)) =
     [[(''Authorization'', ''Bearer '' @ api_key (self st)),
       (''Content-Type'', ''application/json'')]]"
  by (simp_all add: complete_def search_def answers_def classification_def engines_def
      engine_def Let_def new_requests_send)

lemma encode_no_request: "new_requests st (encode st) = []"
  by (simp add: encode_def new_requests_def)

lemma headers_from_map:
  "map req_headers rs = [h] \<Longrightarrow> \<forall>r \<in> set rs. req_headers r = h"
  by (cases rs) auto


section \<open>The URL builders\<close>

text \<open>
  C4. Every builder returns the origin \<open>https://api.openai.com\<close>, the version prefix
  \<open>v1\<close> and its path, with the engine string put in verbatim; each is a total function of
  the string.
\<close>

theorem url_builders_exact:
  "completionURL e = ''https://api.openai.com/v1/engines/'' @ e @ ''/completions'' \<and>
   searchURL e = ''https://api.openai.com/v1/engines/'' @ e @ ''/search'' \<and>
   embeddingsUrl e = ''https://api.openai.com/v1/engines/'' @ e @ ''/embeddings'' \<and>
   engineUrl e = ''https://api.openai.com/v1/engines/'' @ e \<and>
   enginesUrl = ''https://api.openai.com/v1/engines'' \<and>
   classificationsUrl = ''https://api.openai.com/v1/classifications'' \<and>
   answersUrl = ''https://api.openai.com/v1/answers'' \<and>
   filesUrl = ''https://api.openai.com/v1/files''"
  by (simp add: completionURL_def searchURL_def embeddingsUrl_def engineUrl_def
      enginesUrl_def classificationsUrl_def answersUrl_def filesUrl_def
      OPEN_AI_URL_def ORIGIN_def API_VERSION_def)

section \<open>The key-casing transform\<close>

text \<open>
  C1, as amended. For a key without a space character, \<open>camelToUnderscore\<close> puts an
  underscore in front of each uppercase letter A to Z and turns the whole key to lowercase;
  such a key with nothing to turn to lowercase comes back unchanged; \<open>maxTokens\<close> becomes
  \<open>max_tokens\<close> and \<open>topP\<close> becomes exactly \<open>top_p\<close>. Apart from the name
  \<open>__proto__\<close>, the keys of the new mapping are the rewritten keys of the bag; when no two
  keys are rewritten to the same key and none to \<open>__proto__\<close>, the new mapping is the bag
  with every key rewritten and every value kept. The bag \<open>{n: 3}\<close> maps to itself and the
  empty bag to the empty mapping.
\<close>

theorem key_transform_amended:
  "(CHR '' '' \<notin> set key \<longrightarrow> camelToUnderscore key = separator_before_uppercase key) \<and>
   (CHR '' '' \<notin> set key \<and> toLowerCase key = key \<longrightarrow> camelToUnderscore key = key) \<and>
   camelToUnderscore ''maxTokens'' = ''max_tokens'' \<and>
   camelToUnderscore ''topP'' = ''top_p'' \<and>
   set (Object_keys (camel_data opts)) - {''__proto__''} =
     camelToUnderscore ` set (Object_keys opts) - {''__proto__''} \<and>
   (distinct (map camelToUnderscore (Object_keys opts)) \<and>
    ''__proto__'' \<notin> camelToUnderscore ` set (Object_keys opts) \<longrightarrow>
      camel_data opts = map (\<lambda>(k, v). (camelToUnderscore k, v)) opts) \<and>
   camel_data [(''n'', Num 3)] = [(''n'', Num 3)] \<and>
   camel_data [] = []"
proof -
  have "camelToUnderscore ''maxTokens'' = ''max_tokens''" by code_simp
  moreover have "camelToUnderscore ''topP'' = ''top_p''" by code_simp
  moreover have "camel_data [(''n'', Num 3)] = [(''n'', Num 3)]" by code_simp
  moreover have "camel_data [] = []" by (rule camel_data_Nil)
  ultimately show ?thesis
    using camelToUnderscore_no_space [of key] camelToUnderscore_unchanged [of key]
      camel_data_keys [of opts] camel_data_distinct [of opts]
    by blast
qed

text \<open>
  The theorem at the keys \<open>presencePenalty\<close> and \<open>prompt\<close> and at the bag
  \<open>{maxTokens: 5, topP: 9}\<close>.
\<close>

theorem key_transform_amended_witness:
  "CHR '' '' \<notin> set ''presencePenalty'' \<and>
   camelToUnderscore ''presencePenalty'' = ''presence_penalty'' \<and>
   CHR '' '' \<notin> set ''prompt'' \<and> toLowerCase ''prompt'' = ''prompt'' \<and>
   camelToUnderscore ''prompt'' = ''prompt'' \<and>
   distinct (map camelToUnderscore (Object_keys [(''maxTokens'', Num 5), (''topP'', Num 9)])) \<and>
   ''__proto__'' \<notin>
     camelToUnderscore ` set (Object_keys [(''maxTokens'', Num 5), (''topP'', Num 9)]) \<and>
   camel_data [(''maxTokens'', Num 5), (''topP'', Num 9)] =
     [(''max_tokens'', Num 5), (''top_p'', Num 9)]"
proof -
  let ?opts = "[(''maxTokens'', Num 5), (''topP'', Num 9)]"
  have h1: "CHR '' '' \<notin> set ''presencePenalty''" by simp
  have h2: "CHR '' '' \<notin> set ''prompt''" by simp
  have h3: "toLowerCase ''prompt'' = ''prompt''" by code_simp
  have h4: "distinct (map camelToUnderscore (Object_keys ?opts))" by code_simp
  have k: "map camelToUnderscore (Object_keys ?opts) = [''max_tokens'', ''top_p'']"
    by code_simp
  have h5: "''__proto__'' \<notin> camelToUnderscore ` set (Object_keys ?opts)"
    unfolding set_map [symmetric] k by simp
  have e1: "separator_before_uppercase ''presencePenalty'' = ''presence_penalty''" by code_simp
  have e2: "map (\<lambda>(k, v). (camelToUnderscore k, v)) ?opts =
            [(''max_tokens'', Num 5), (''top_p'', Num 9)]" by code_simp
  from key_transform_amended [of "''presencePenalty''" ?opts] h1 e1
  have c1: "camelToUnderscore ''presencePenalty'' = ''presence_penalty''"
    by simp
  from key_transform_amended [of "''presencePenalty''" ?opts] h4 h5
  have "camel_data ?opts = map (\<lambda>(k, v). (camelToUnderscore k, v)) ?opts"
    by blast
  with e2 have c2: "camel_data ?opts = [(''max_tokens'', Num 5), (''top_p'', Num 9)]"
    by simp
  from key_transform_amended [of "''prompt''" ?opts] h2 h3
  have c3: "camelToUnderscore ''prompt'' = ''prompt''" by blast
  from h1 h2 h3 h4 h5 c1 c2 c3 show ?thesis by blast
qed

text \<open>
  C1 as stated fails in three ways. The key \<open>a b\<close> has no uppercase letter, and the
  transform rewrites it to \<open>a_b\<close>: the space that \<open>replace\<close> puts in front of capitals is
  the character that \<open>split\<close> and \<open>join\<close> turn into the underscore. The one-letter key
  E acute (code unit 201) is an uppercase letter, which \<open>toLowerCase\<close> turns into e acute
  (233), and it gets no underscore: the class \<open>[A-Z]\<close> does not hold it. The key
  \<open>_Proto__\<close> is rewritten to \<open>__proto__\<close>, and the write of that name to the new
  object runs the setter of \<open>Object.prototype\<close>: the new mapping has no key at all.
\<close>

theorem key_transform_counterexample:
  "toLowerCase ''a b'' = ''a b'' \<and> camelToUnderscore ''a b'' = ''a_b'' \<and>
   camel_data [(''a b'', Num 1)] = [(''a_b'', Num 1)] \<and>
   toLowerCase [CHR 0xC9] = [CHR 0xE9] \<and> camelToUnderscore [CHR 0xC9] = [CHR 0xE9] \<and>
   camelToUnderscore ''_Proto__'' = ''__proto__'' \<and>
   camel_data [(''_Proto__'', Num 1)] = []"
  by code_simp


section \<open>The request body\<close>

text \<open>
  C3. For every URL, method and options bag, the one request that the dispatcher issues has
  the empty string as its body when the transformed mapping has no keys, and the transformed
  mapping itself (which the transport serialises as JSON) otherwise; without a bag, and
  with the empty bag, the body is empty. When no key of the bag is rewritten to
  \<open>__proto__\<close>, the transformed mapping has no keys exactly when the bag has none.
\<close>

theorem dispatcher_body:
  "map req_data (new_requests st (send_request url method (Some opts) st)) =
     [if Object_keys (camel_data opts) = [] then Str '''' else Obj (camel_data opts)] \<and>
   map req_data (new_requests st (send_request url method None st)) = [Str ''''] \<and>
   map req_data (new_requests st (send_request url method (Some []) st)) = [Str ''''] \<and>
   (''__proto__'' \<notin> camelToUnderscore ` set (Object_keys opts) \<longrightarrow>
      (Object_keys (camel_data opts) = [] \<longleftrightarrow> Object_keys opts = []))"
proof -
  have a: "map req_data (new_requests st (send_request url method (Some opts) st)) =
     [if Object_keys (camel_data opts) = [] then Str '''' else Obj (camel_data opts)]"
    by (simp add: new_requests_send Let_def Object_keys_def)
  have b: "map req_data (new_requests st (send_request url method None st)) = [Str '''']"
    by (simp add: new_requests_send Let_def camel_data_Nil)
  have c: "map req_data (new_requests st (send_request url method (Some []) st)) = [Str '''']"
    by (simp add: new_requests_send Let_def camel_data_Nil)
  have d: "''__proto__'' \<notin> camelToUnderscore ` set (Object_keys opts) \<longrightarrow>
      (Object_keys (camel_data opts) = [] \<longleftrightarrow> Object_keys opts = [])"
    using camel_data_empty_iff [of opts] by (simp add: Object_keys_def)
  from a b c d show ?thesis by blast
qed

text \<open>
  The theorem at the bag \<open>{maxTokens: 5}\<close>, whose request carries the object
  \<open>{max_tokens: 5}\<close>.
\<close>

theorem dispatcher_body_witness:
  "''__proto__'' \<notin> camelToUnderscore ` set (Object_keys [(''maxTokens'', Num 5)]) \<and>
   Object_keys [(''maxTokens'', Num 5)] \<noteq> [] \<and>
   Object_keys (camel_data [(''maxTokens'', Num 5)]) \<noteq> [] \<and>
   map req_data
     (new_requests \<lparr>self = new_OpenAI ''sk-1'', bag = [], sent = []\<rparr>
        (send_request ''https://api.openai.com/v1/answers'' ''post''
           (Some [(''maxTokens'', Num 5)])
           \<lparr>self = new_OpenAI ''sk-1'', bag = [], sent = []\<rparr>)) =
     [Obj [(''max_tokens'', Num 5)]]"
proof -
  let ?opts = "[(''maxTokens'', Num 5)]"
  let ?st = "\<lparr>self = new_OpenAI ''sk-1'', bag = [], sent = []\<rparr>"
  have k: "map camelToUnderscore (Object_keys ?opts) = [''max_tokens'']"
    by code_simp
  have h1: "''__proto__'' \<notin> camelToUnderscore ` set (Object_keys ?opts)"
    unfolding set_map [symmetric] k by simp
  have h2: "Object_keys ?opts \<noteq> []" by (simp add: Object_keys_def)
  have e: "camel_data ?opts = [(''max_tokens'', Num 5)]" by code_simp
  note t = dispatcher_body [of ?st "''https://api.openai.com/v1/answers''" "''post''" ?opts]
  from t h1 h2 have c1: "Object_keys (camel_data ?opts) \<noteq> []" by blast
  from t have "map req_data
     (new_requests ?st (send_request ''https://api.openai.com/v1/answers'' ''post''
        (Some ?opts) ?st)) =
     [if Object_keys (camel_data ?opts) = [] then Str '''' else Obj (camel_data ?opts)]"
    by blast
  with c1 e have c2: "map req_data
     (new_requests ?st (send_request ''https://api.openai.com/v1/answers'' ''post''
        (Some ?opts) ?st)) = [Obj [(''max_tokens'', Num 5)]]"
    by simp
  from h1 h2 c1 c2 show ?thesis by blast
qed


section \<open>Engine-name validation\<close>




section \<open>The message of the validator's error\<close>

text \<open>
  C5, as amended. For every value that is not in the allow-list, the validator throws an
  error whose message is the fixed text \<open>Unknown engine name for embeddings. Available
  engine names are\<close> followed by the valid names joined by commas: the message includes
  every valid engine name, and it is the same whatever value was attempted.
\<close>

theorem embeddings_error_message_amended:
  "v \<notin> set availableEngineNames \<Longrightarrow>
   isl (check_embeddings_engine_name v) \<and>
   message (projl (check_embeddings_engine_name v)) =
     ''Unknown engine name for embeddings. Available engine names are ''
     @ js_to_string (Arr availableEngineNames) \<and>
   (Str n \<in> set availableEngineNames \<longrightarrow>
      js_includes (message (projl (check_embeddings_engine_name v))) n)"
proof -
  assume v: "v \<notin> set availableEngineNames"
  have inc: "js_includes (p @ js_to_string (Arr availableEngineNames)) n"
    if "Str n \<in> set availableEngineNames" for p
  proof -
    obtain ws where ws: "availableEngineNames = map Str ws"
      using available_names by blast
    from that have n: "n \<in> set ws"
      unfolding ws by (rule Str_member)
    from n have "sublist n (js_join '','' ws)" by (rule js_join_member)
    then have "sublist n (p @ js_join '','' ws)" by (simp add: sublist_append)
    then show ?thesis unfolding js_includes_def ws to_string_strings .
  qed
  let ?m = "''Unknown engine name for embeddings. Available engine names are ''
            @ js_to_string (Arr availableEngineNames)"
  from v have r: "check_embeddings_engine_name v = Inl (Error ?m)"
    by (rule check_rejects)
  have a: "isl (check_embeddings_engine_name v)"
    by (simp only: r sum.disc)
  have b: "message (projl (check_embeddings_engine_name v)) = ?m"
    by (simp only: r sum.sel message.simps)
  have c: "Str n \<in> set availableEngineNames \<longrightarrow>
      js_includes (message (projl (check_embeddings_engine_name v))) n"
    unfolding b using inc by blast
  from a b c show ?thesis by blast
qed

text \<open>
  The theorem at the value \<open>not-a-real-engine\<close> and the valid name
  \<open>text-search-ada-doc-001\<close>.
\<close>

theorem embeddings_error_message_amended_witness:
  "Str ''not-a-real-engine'' \<notin> set availableEngineNames \<and>
   isl (check_embeddings_engine_name (Str ''not-a-real-engine'')) \<and>
   message (projl (check_embeddings_engine_name (Str ''not-a-real-engine''))) =
     ''Unknown engine name for embeddings. Available engine names are ''
     @ js_to_string (Arr availableEngineNames) \<and>
   Str ''text-search-ada-doc-001'' \<in> set availableEngineNames \<and>
   js_includes (message (projl (check_embeddings_engine_name (Str ''not-a-real-engine''))))
     ''text-search-ada-doc-001''"
proof -
  have h1: "Str ''not-a-real-engine'' \<notin> set availableEngineNames"
    by (simp add: availableEngineNames_def)
  have h2: "Str ''text-search-ada-doc-001'' \<in> set availableEngineNames"
    by (simp add: availableEngineNames_def)
  from embeddings_error_message_amended [OF h1, of "''text-search-ada-doc-001''"] h1 h2
  show ?thesis by blast
qed

text \<open>
  C5 as stated fails: the message thrown for \<open>not-a-real-engine\<close> does not include that
  value. The template of the message interpolates the list of names only.
\<close>

theorem embeddings_error_message_counterexample:
  "isl (check_embeddings_engine_name (Str ''not-a-real-engine'')) \<and>
   \<not> js_includes (message (projl (check_embeddings_engine_name (Str ''not-a-real-engine''))))
       ''not-a-real-engine''"
  by code_simp


section \<open>The default engine\<close>

text \<open>
  C6, as amended. When the bag has no engine field, or has the empty string there,
  \<open>complete\<close> and \<open>search\<close> build their URL with the default engine \<open>davinci\<close>;
  when the caller supplies a non-empty engine string, that engine is used.
\<close>

theorem default_engine_amended:
  "(''engine'' \<notin> set (Object_keys (bag st)) \<or> js_get (bag st) ''engine'' = Str '''' \<longrightarrow>
      map req_url (new_requests st (complete st)) =
        [''https://api.openai.com/v1/engines/davinci/completions''] \<and>
      map req_url (new_requests st (search st)) =
        [''https://api.openai.com/v1/engines/davinci/search'']) \<and>
   (js_get (bag st) ''engine'' = Str e \<and> e \<noteq> '''' \<longrightarrow>
      map req_url (new_requests st (complete st)) =
        [''https://api.openai.com/v1/engines/'' @ e @ ''/completions''] \<and>
      map req_url (new_requests st (search st)) =
        [''https://api.openai.com/v1/engines/'' @ e @ ''/search''])"
proof -
  have urls:
    "map req_url (new_requests st (complete st)) =
       [completionURL (js_to_string (js_or (js_get (bag st) ''engine'') (Str DEFAULT_ENGINE)))]"
    "map req_url (new_requests st (search st)) =
       [searchURL (js_to_string (js_or (js_get (bag st) ''engine'') (Str DEFAULT_ENGINE)))]"
    by (simp_all add: complete_def search_def Let_def new_requests_send)
  have dflt: "js_to_string (js_or (js_get (bag st) ''engine'') (Str DEFAULT_ENGINE)) = ''davinci''"
    if "''engine'' \<notin> set (Object_keys (bag st)) \<or> js_get (bag st) ''engine'' = Str ''''"
    using that by (auto simp: js_get_absent js_or_def DEFAULT_ENGINE_def)
  have given: "js_to_string (js_or (js_get (bag st) ''engine'') (Str DEFAULT_ENGINE)) = e"
    if "js_get (bag st) ''engine'' = Str e" "e \<noteq> ''''"
    using that by (simp add: js_or_def)
  show ?thesis
    using dflt given unfolding urls
    by (auto simp: completionURL_def searchURL_def OPEN_AI_URL_def ORIGIN_def API_VERSION_def)
qed

text \<open>
  The theorem at the empty bag and at the bag \<open>{engine: "curie"}\<close>.
\<close>

theorem default_engine_amended_witness:
  "''engine'' \<notin> set (Object_keys (bag \<lparr>self = new_OpenAI ''sk-1'', bag = [], sent = []\<rparr>)) \<and>
   map req_url (new_requests \<lparr>self = new_OpenAI ''sk-1'', bag = [], sent = []\<rparr>
                  (complete \<lparr>self = new_OpenAI ''sk-1'', bag = [], sent = []\<rparr>)) =
     [''https://api.openai.com/v1/engines/davinci/completions''] \<and>
   map req_url (new_requests \<lparr>self = new_OpenAI ''sk-1'', bag = [], sent = []\<rparr>
                  (search \<lparr>self = new_OpenAI ''sk-1'', bag = [], sent = []\<rparr>)) =
     [''https://api.openai.com/v1/engines/davinci/search''] \<and>
   js_get (bag \<lparr>self = new_OpenAI ''sk-1'', bag = [(''engine'', Str ''curie'')], sent = []\<rparr>)
     ''engine'' = Str ''curie'' \<and> ''curie'' \<noteq> '''' \<and>
   map req_url (new_requests
                  \<lparr>self = new_OpenAI ''sk-1'', bag = [(''engine'', Str ''curie'')], sent = []\<rparr>
                  (complete \<lparr>self = new_OpenAI ''sk-1'', bag = [(''engine'', Str ''curie'')],
                             sent = []\<rparr>)) =
     [''https://api.openai.com/v1/engines/curie/completions''] \<and>
   map req_url (new_requests
                  \<lparr>self = new_OpenAI ''sk-1'', bag = [(''engine'', Str ''curie'')], sent = []\<rparr>
                  (search \<lparr>self = new_OpenAI ''sk-1'', bag = [(''engine'', Str ''curie'')],
                           sent = []\<rparr>)) =
     [''https://api.openai.com/v1/engines/curie/search'']"
proof -
  let ?none = "\<lparr>self = new_OpenAI ''sk-1'', bag = [], sent = []\<rparr>"
  let ?curie = "\<lparr>self = new_OpenAI ''sk-1'', bag = [(''engine'', Str ''curie'')], sent = []\<rparr>"
  have h1: "''engine'' \<notin> set (Object_keys (bag ?none))"
    by (simp add: Object_keys_def)
  have h2: "js_get (bag ?curie) ''engine'' = Str ''curie''"
    by (simp add: js_get_def)
  have h3: "''curie'' \<noteq> ''''" by simp
  from default_engine_amended [of ?none] h1
  have c1: "map req_url (new_requests ?none (complete ?none)) =
              [''https://api.openai.com/v1/engines/davinci/completions'']"
    and c2: "map req_url (new_requests ?none (search ?none)) =
              [''https://api.openai.com/v1/engines/davinci/search'']"
    by blast+
  from default_engine_amended [of ?curie "''curie''"] h2 h3
  have c3: "map req_url (new_requests ?curie (complete ?curie)) =
              [''https://api.openai.com/v1/engines/curie/completions'']"
    and c4: "map req_url (new_requests ?curie (search ?curie)) =
              [''https://api.openai.com/v1/engines/curie/search'']"
    by simp_all
  from h1 h2 h3 c1 c2 c3 c4 show ?thesis by blast
qed

text \<open>
  C6 as stated fails for a caller who supplies the empty string as the engine: \<open>||\<close>
  takes the default for every falsy value, so the request goes to \<open>davinci\<close> and not to
  the URL of the engine supplied.
\<close>

theorem empty_engine_counterexample:
  "js_get (bag \<lparr>self = new_OpenAI ''sk-1'', bag = [(''engine'', Str '''')], sent = []\<rparr>) ''engine''
     = Str '''' \<and>
   map req_url (sent (snd (complete
     \<lparr>self = new_OpenAI ''sk-1'', bag = [(''engine'', Str '''')], sent = []\<rparr>))) =
     [''https://api.openai.com/v1/engines/davinci/completions''] \<and>
   completionURL '''' = ''https://api.openai.com/v1/engines//completions''"
  by code_simp


section \<open>Headers and the stored key\<close>

text \<open>
  C7. For a client constructed with a key, every request that any method issues carries
  exactly the headers \<open>Authorization: Bearer key\<close> and
  \<open>Content-Type: application/json\<close>, and after every method the client object is the one
  that the constructor made.
\<close>

theorem headers_and_key:
  assumes "self st = new_OpenAI key"
    and "out \<in> {complete st, search st, answers st, classification st, engines st,
                engine e st, embeddings st, encode st}"
  shows "self (snd out) = new_OpenAI key \<and>
         (\<forall>r \<in> set (new_requests st out).
            req_headers r = [(''Authorization'', ''Bearer '' @ key),
                             (''Content-Type'', ''application/json'')])"
proof -
  have k: "api_key (self st) = key"
    using assms(1) by (simp add: new_OpenAI_def)
  have s: "self (snd out) = self st"
    using assms(2) methods_self by auto
  have h: "\<forall>r \<in> set (new_requests st out).
            req_headers r = [(''Authorization'', ''Bearer '' @ api_key (self st)),
                             (''Content-Type'', ''application/json'')]"
    using assms(2) embeddings_headers [of st] methods_headers [THEN headers_from_map]
      encode_no_request [of st]
    by auto
  from s assms(1) have s': "self (snd out) = new_OpenAI key" by simp
  from h have h': "\<forall>r \<in> set (new_requests st out).
            req_headers r = [(''Authorization'', ''Bearer '' @ key),
                             (''Content-Type'', ''application/json'')]"
    unfolding k .
  from s' h' show ?thesis by blast
qed

text \<open>
  The theorem at \<open>complete({prompt: "Hello"})\<close> on a client with the key \<open>sk-1\<close>.
\<close>

theorem headers_and_key_witness:
  "self \<lparr>self = new_OpenAI ''sk-1'', bag = [(''prompt'', Str ''Hello'')], sent = []\<rparr> =
     new_OpenAI ''sk-1'' \<and>
   self (snd (complete
     \<lparr>self = new_OpenAI ''sk-1'', bag = [(''prompt'', Str ''Hello'')], sent = []\<rparr>)) =
     new_OpenAI ''sk-1'' \<and>
   length (new_requests
     \<lparr>self = new_OpenAI ''sk-1'', bag = [(''prompt'', Str ''Hello'')], sent = []\<rparr>
     (complete \<lparr>self = new_OpenAI ''sk-1'', bag = [(''prompt'', Str ''Hello'')], sent = []\<rparr>))
     = 1 \<and>
   req_headers (hd (new_requests
     \<lparr>self = new_OpenAI ''sk-1'', bag = [(''prompt'', Str ''Hello'')], sent = []\<rparr>
     (complete \<lparr>self = new_OpenAI ''sk-1'', bag = [(''prompt'', Str ''Hello'')], sent = []\<rparr>)))
     = [(''Authorization'', ''Bearer sk-1''), (''Content-Type'', ''application/json'')]"
proof -
  let ?st = "\<lparr>self = new_OpenAI ''sk-1'', bag = [(''prompt'', Str ''Hello'')], sent = []\<rparr>"
  have h1: "self ?st = new_OpenAI ''sk-1''" by simp
  have h2: "complete ?st \<in> {complete ?st, search ?st, answers ?st, classification ?st,
              engines ?st, engine Undefined ?st, embeddings ?st, encode ?st}"
    by simp
  have n: "length (new_requests ?st (complete ?st)) = 1"
    by code_simp
  then have m: "hd (new_requests ?st (complete ?st)) \<in> set (new_requests ?st (complete ?st))"
    by (cases "new_requests ?st (complete ?st)") simp_all
  from headers_and_key [OF h1 h2]
  have c1: "self (snd (complete ?st)) = new_OpenAI ''sk-1''"
    and c2: "\<forall>r \<in> set (new_requests ?st (complete ?st)).
               req_headers r = [(''Authorization'', ''Bearer '' @ ''sk-1''),
                                (''Content-Type'', ''application/json'')]"
    by blast+
  from c2 m have c3: "req_headers (hd (new_requests ?st (complete ?st))) =
      [(''Authorization'', ''Bearer sk-1''), (''Content-Type'', ''application/json'')]"
    by simp
  from h1 c1 n c3 show ?thesis by blast
qed


section \<open>The caller's bag after complete and search\<close>



section \<open>The encode stub\<close>

text \<open>
  C9. In every state \<open>encode\<close> returns a resolved promise of an array of exactly 2047
  empty strings, hands no request to the transport and changes nothing.
\<close>

theorem encode_stub:
  "fst (encode st) = Inr (Resolved (Arr (replicate 2047 (Str '''')))) \<and>
   length (replicate 2047 (Str '''')) = 2047 \<and>
   new_requests st (encode st) = [] \<and>
   snd (encode st) = st"
  by (simp add: encode_def new_requests_def)


section \<open>The engine name in an embeddings request\<close>

text \<open>
  C10. When the engine of the bag is in the allow-list, \<open>embeddings\<close> leaves the caller's
  bag as it is, engine entry included, and the engine name goes out twice: in the path of
  the URL, and as the \<open>engine\<close> field of the request body.
\<close>

theorem embeddings_keeps_engine:
  assumes "js_get (bag st) ''engine'' = Str e"
    and "Str e \<in> set availableEngineNames"
  shows "bag (snd (embeddings st)) = bag st \<and>
         js_get (bag (snd (embeddings st))) ''engine'' = Str e \<and>
         map req_url (new_requests st (embeddings st)) =
           [''https://api.openai.com/v1/engines/'' @ e @ ''/embeddings''] \<and>
         map req_data (new_requests st (embeddings st)) = [Obj (camel_data (bag st))] \<and>
         js_get (camel_data (bag st)) ''engine'' = Str e"
proof -
  from assms have valid: "js_get (bag st) ''engine'' \<in> set availableEngineNames"
    by simp
  have present: "''engine'' \<in> set (Object_keys (bag st))"
    using assms(1) by (rule js_get_present)
  have d: "js_get (camel_data (bag st)) ''engine'' = Str e"
    using camel_data_engine [OF present] assms(1) by simp
  then have ne: "camel_data (bag st) \<noteq> []"
    by (auto simp: js_get_def)
  have a: "bag (snd (embeddings st)) = bag st"
    by (simp add: embeddings_valid [OF valid] bag_send_request)
  have b: "map req_url (new_requests st (embeddings st)) =
           [''https://api.openai.com/v1/engines/'' @ e @ ''/embeddings'']"
    by (simp add: embeddings_valid [OF valid] new_requests_send assms(1) embeddingsUrl_def
        OPEN_AI_URL_def ORIGIN_def API_VERSION_def)
  have c: "map req_data (new_requests st (embeddings st)) = [Obj (camel_data (bag st))]"
    using ne by (simp add: embeddings_valid [OF valid] new_requests_send Let_def)
  from a b c d assms(1) show ?thesis by simp
qed

text \<open>
  The theorem at the bag \<open>{engine: "text-search-ada-doc-001", input: "hi"}\<close>.
\<close>

theorem embeddings_keeps_engine_witness:
  "js_get (bag \<lparr>self = new_OpenAI ''sk-1'',
                bag = [(''engine'', Str ''text-search-ada-doc-001''), (''input'', Str ''hi'')],
                sent = []\<rparr>) ''engine'' = Str ''text-search-ada-doc-001'' \<and>
   Str ''text-search-ada-doc-001'' \<in> set availableEngineNames \<and>
   bag (snd (embeddings \<lparr>self = new_OpenAI ''sk-1'',
                bag = [(''engine'', Str ''text-search-ada-doc-001''), (''input'', Str ''hi'')],
                sent = []\<rparr>)) =
     [(''engine'', Str ''text-search-ada-doc-001''), (''input'', Str ''hi'')] \<and>
   map req_url (new_requests
       \<lparr>self = new_OpenAI ''sk-1'',
          bag = [(''engine'', Str ''text-search-ada-doc-001''), (''input'', Str ''hi'')],
          sent = []\<rparr>
       (embeddings \<lparr>self = new_OpenAI ''sk-1'',
          bag = [(''engine'', Str ''text-search-ada-doc-001''), (''input'', Str ''hi'')],
          sent = []\<rparr>)) =
     [''https://api.openai.com/v1/engines/text-search-ada-doc-001/embeddings''] \<and>
   map req_data (new_requests
       \<lparr>self = new_OpenAI ''sk-1'',
          bag = [(''engine'', Str ''text-search-ada-doc-001''), (''input'', Str ''hi'')],
          sent = []\<rparr>
       (embeddings \<lparr>self = new_OpenAI ''sk-1'',
          bag = [(''engine'', Str ''text-search-ada-doc-001''), (''input'', Str ''hi'')],
          sent = []\<rparr>)) =
     [Obj [(''engine'', Str ''text-search-ada-doc-001''), (''input'', Str ''hi'')]]"
proof -
  let ?st = "\<lparr>self = new_OpenAI ''sk-1'',
              bag = [(''engine'', Str ''text-search-ada-doc-001''), (''input'', Str ''hi'')],
              sent = []\<rparr>"
  have h1: "js_get (bag ?st) ''engine'' = Str ''text-search-ada-doc-001''"
    by (simp add: js_get_def)
  have h2: "Str ''text-search-ada-doc-001'' \<in> set availableEngineNames"
    by (simp add: availableEngineNames_def)
  have e: "camel_data (bag ?st) =
           [(''engine'', Str ''text-search-ada-doc-001''), (''input'', Str ''hi'')]"
    by code_simp
  from embeddings_keeps_engine [OF h1 h2] h1 h2 e show ?thesis by simp
qed

end
